theory Spec2Isabelle
  imports Main "HOL-Library.Word"
begin

unbundle bit_operations_syntax

section \<open>Bytes, buffers and exceptions\<close>

text \<open>
  The image is a Python \<open>bytearray\<close>: a list of bytes. Python integers are unbounded;
  the unsigned quantities of the program (offsets, sizes, FAT entries) are natural
  numbers, and the few places where a subtraction can go below zero are computed on
  \<open>int\<close>. Every exception the interpreter can raise is a value of \<open>error\<close>.
\<close>

type_synonym byte = "8 word"

datatype error =
    Error                 \<comment> \<open>\<open>Floppy.Error\<close>, the one exception class the program defines\<close>
  | NameError             \<comment> \<open>a name that is not bound where the statement runs\<close>
  | AttributeError        \<comment> \<open>an attribute the object does not have\<close>
  | IndexError            \<comment> \<open>index outside a bytearray or list\<close>
  | ZeroDivisionError
  | UnicodeEncodeError    \<comment> \<open>\<open>str.encode("ASCII")\<close> on a character above 127\<close>
  | UnicodeDecodeError    \<comment> \<open>\<open>bytes.decode("ASCII")\<close> on a byte above 127\<close>
  | StructError           \<comment> \<open>\<open>struct.pack\<close> on a value outside the field's range\<close>

definition getitem :: "'a list \<Rightarrow> nat \<Rightarrow> error + 'a" where
  "getitem xs i = (if i < length xs then Inr (xs ! i) else Inl IndexError)"

definition setitem :: "'a list \<Rightarrow> nat \<Rightarrow> 'a \<Rightarrow> error + 'a list" where
  "setitem xs i v = (if i < length xs then Inr (xs[i := v]) else Inl IndexError)"

text \<open>\<open>xs[a:b]\<close> for \<open>0 \<le> a\<close>, \<open>0 \<le> b\<close>: both ends are clamped to the length.\<close>

definition slice :: "'a list \<Rightarrow> nat \<Rightarrow> nat \<Rightarrow> 'a list" where
  "slice xs a b = take (b - a) (drop a xs)"

text \<open>\<open>xs[a:b] = v\<close>: the slice is replaced by \<open>v\<close>, whatever the length of \<open>v\<close>.\<close>

definition slice_set :: "'a list \<Rightarrow> nat \<Rightarrow> nat \<Rightarrow> 'a list \<Rightarrow> 'a list" where
  "slice_set xs a b v = take a xs @ v @ drop (max a b) xs"

section \<open>The image and its parsed state\<close>

record floppy =
  data :: "byte list"
  sector_size :: nat
  cluster_sects :: nat
  reserved_sects :: nat
  fat_count :: nat
  root_max :: nat
  sectors :: nat
  fat_sects :: nat
  track_sects :: nat
  heads :: nat
  volume_id :: nat
  volume_label :: string
  root :: nat
  cluster2 :: nat
  cluster_limit :: int
  fat :: "nat list"

section \<open>The FAT table codec\<close>

text \<open>
  The loop of \<open>_fat_flush\<close> over \<open>range(len(self.fat))\<close>: the entries still to write,
  the index \<open>i\<close> of the first of them, the offset \<open>e\<close> and the buffer. The values
  stored are masked to a byte by the source, so the store itself cannot fail for their
  size; only the index can be out of range.
\<close>

fun fat_flush_loop :: "nat list \<Rightarrow> nat \<Rightarrow> nat \<Rightarrow> byte list \<Rightarrow> error + byte list" where
  "fat_flush_loop [] i e d = Inr d"
| "fat_flush_loop (entry # rest) i e d =
     (if i AND 1 = 0 then
        (case setitem d e (of_nat (entry AND 0xFF)) of
           Inl err \<Rightarrow> Inl err
         | Inr d1 \<Rightarrow>
            (case getitem d1 (e + 1) of
               Inl err \<Rightarrow> Inl err
             | Inr b \<Rightarrow>
                (case setitem d1 (e + 1)
                        (of_nat ((unat b AND 0xF0) OR (drop_bit 8 entry AND 0x0F))) of
                   Inl err \<Rightarrow> Inl err
                 | Inr d2 \<Rightarrow> fat_flush_loop rest (i + 1) (e + 1) d2)))
      else
        (case getitem d e of
           Inl err \<Rightarrow> Inl err
         | Inr b \<Rightarrow>
            (case setitem d e (of_nat ((unat b AND 0x0F) OR (push_bit 4 entry AND 0xF0))) of
               Inl err \<Rightarrow> Inl err
             | Inr d1 \<Rightarrow>
                (case setitem d1 (e + 1) (of_nat (drop_bit 4 entry AND 0xFF)) of
                   Inl err \<Rightarrow> Inl err
                 | Inr d2 \<Rightarrow> fat_flush_loop rest (i + 1) (e + 2) d2))))"

text \<open>The second loop of \<open>_fat_flush\<close>: copy 0 is written over every other copy.\<close>

fun fat_copy_loop :: "nat list \<Rightarrow> nat \<Rightarrow> nat \<Rightarrow> byte list \<Rightarrow> byte list" where
  "fat_copy_loop [] fat_start fat_bytes d = d"
| "fat_copy_loop (i # is) fat_start fat_bytes d =
     (let fat_end = fat_start + fat_bytes;
          fat2_start = fat_start + fat_bytes * i;
          fat2_end = fat2_start + fat_bytes
      in fat_copy_loop is fat_start fat_bytes
           (slice_set d fat2_start fat2_end (slice d fat_start fat_end)))"

definition fat_flush :: "floppy \<Rightarrow> error + floppy" where
  "fat_flush s =
     (let fat_start = reserved_sects s * sector_size s;
          fat_bytes = fat_sects s * sector_size s
      in case fat_flush_loop (fat s) 0 (reserved_sects s * sector_size s) (data s) of
           Inl err \<Rightarrow> Inl err
         | Inr d \<Rightarrow>
             Inr (s\<lparr>data := fat_copy_loop [1 ..< fat_count s] fat_start fat_bytes d\<rparr>))"

text \<open>
  The reading loop of \<open>_fat_open\<close>: \<open>while (e+2) <= fat_end\<close>, with the list read so
  far, whose length decides which half of the byte pair is taken.
\<close>

function fat_open_loop :: "byte list \<Rightarrow> nat \<Rightarrow> nat \<Rightarrow> nat list \<Rightarrow> error + nat list" where
  "fat_open_loop d fat_end e acc =
     (if e + 2 \<le> fat_end then
        (case getitem d e of
           Inl err \<Rightarrow> Inl err
         | Inr b0 \<Rightarrow>
            (case getitem d (e + 1) of
               Inl err \<Rightarrow> Inl err
             | Inr b1 \<Rightarrow>
                (if length acc AND 1 = 0
                 then fat_open_loop d fat_end (e + 1)
                        (acc @ [unat b0 OR push_bit 8 (unat b1 AND 0x0F)])
                 else fat_open_loop d fat_end (e + 2)
                        (acc @ [drop_bit 4 (unat b0 AND 0xF0) OR push_bit 4 (unat b1)]))))
      else Inr acc)"
  by pat_completeness auto
termination
  by (relation "measure (\<lambda>(d, fat_end, e, acc). fat_end - e)") auto

text \<open>The comparison of every further FAT copy with copy 0, in the order of the loop.\<close>

fun fat_verify :: "byte list \<Rightarrow> nat \<Rightarrow> nat \<Rightarrow> nat list \<Rightarrow> error + unit" where
  "fat_verify d fat_start fat_bytes [] = Inr ()"
| "fat_verify d fat_start fat_bytes (i # is) =
     (let fat_end = fat_start + fat_bytes;
          fat2_start = fat_start + fat_bytes * i;
          fat2_end = fat2_start + fat_bytes
      in if slice d fat_start fat_end \<noteq> slice d fat2_start fat2_end then Inl Error
         else fat_verify d fat_start fat_bytes is)"

definition fat_open :: "floppy \<Rightarrow> error + floppy" where
  "fat_open s =
     (let fat_start = reserved_sects s * sector_size s;
          fat_bytes = fat_sects s * sector_size s;
          fat_end = fat_start + fat_bytes
      in if sectors s < reserved_sects s + fat_count s * fat_sects s then Inl Error
         else if fat_count s < 1 \<or> fat_sects s < 1 then Inl Error
         else (case fat_verify (data s) fat_start fat_bytes [1 ..< fat_count s] of
                 Inl err \<Rightarrow> Inl err
               | Inr u \<Rightarrow>
                  (case fat_open_loop (data s) fat_end fat_start [] of
                     Inl err \<Rightarrow> Inl err
                   | Inr f \<Rightarrow> Inr (s\<lparr>fat := f\<rparr>))))"


section \<open>The boot sector\<close>

text \<open>Little-endian unsigned integer of a byte string, as \<open>struct.unpack\<close> reads it.\<close>

fun le_uint :: "byte list \<Rightarrow> nat" where
  "le_uint [] = 0"
| "le_uint (b # bs) = unat b + 256 * le_uint bs"

text \<open>\<open>bytes.decode("ASCII")\<close> and \<open>str.rstrip(" ")\<close>.\<close>

definition decode_ascii :: "byte list \<Rightarrow> error + string" where
  "decode_ascii bs =
     (if list_all (\<lambda>b. b < 0x80) bs then Inr (map (\<lambda>b. char_of (unat b)) bs)
      else Inl UnicodeDecodeError)"

definition rstrip :: "string \<Rightarrow> string" where
  "rstrip str = rev (dropWhile (\<lambda>c. c = CHR '' '') (rev str))"

text \<open>
  The fields \<open>struct.unpack("<HBHBHHBHHH", self.data[11:28])\<close> yields, in the order of
  the assignments of \<open>_boot_open\<close>; the derived fields and the FAT are not set yet.
\<close>

definition boot_fields :: "byte list \<Rightarrow> floppy" where
  "boot_fields d =
     \<lparr> data = d,
       sector_size = le_uint (slice d 11 13),
       cluster_sects = le_uint (slice d 13 14),
       reserved_sects = le_uint (slice d 14 16),
       fat_count = le_uint (slice d 16 17),
       root_max = le_uint (slice d 17 19),
       sectors = le_uint (slice d 19 21),
       fat_sects = le_uint (slice d 22 24),
       track_sects = le_uint (slice d 24 26),
       heads = le_uint (slice d 26 28),
       volume_id = 0,
       volume_label = [],
       root = 0,
       cluster2 = 0,
       cluster_limit = 0,
       fat = [] \<rparr>"

definition boot_root :: "floppy \<Rightarrow> nat" where
  "boot_root s = sector_size s * (reserved_sects s + fat_count s * fat_sects s)"

definition boot_cluster2 :: "floppy \<Rightarrow> nat" where
  "boot_cluster2 s =
     (let root_sectors = (root_max s * 32 + (sector_size s - 1)) div sector_size s
      in boot_root s + sector_size s * root_sectors)"

text \<open>
  \<open>_boot_open\<close>, statement by statement. The first \<open>raise\<close> formats its message with
  \<open>len(data)\<close>, and \<open>data\<close> is not bound in the method: the exception that leaves is
  \<open>NameError\<close>. The last two are written \<open>raise self.error(...)\<close>, and the object has
  no attribute \<open>error\<close>: the exception that leaves is \<open>AttributeError\<close>. An index, a
  decoding or a division that fails raises before the later checks are reached.
\<close>

definition boot_open :: "byte list \<Rightarrow> error + floppy" where
  "boot_open d =
     (if length d < 38 then Inl NameError
      else
        let s = boot_fields d in
        (case getitem d 38 of
           Inl err \<Rightarrow> Inl err
         | Inr sig \<Rightarrow>
            (case (if sig = 0x29 \<and> length d \<ge> 54
                   then (case decode_ascii (slice d 43 54) of
                           Inl err \<Rightarrow> Inl err
                         | Inr l \<Rightarrow> Inr (s\<lparr>volume_id := le_uint (slice d 39 43),
                                            volume_label := rstrip l\<rparr>))
                   else Inr s) of
               Inl err \<Rightarrow> Inl err
             | Inr s1 \<Rightarrow>
                 if sectors s1 * sector_size s1 > length d then Inl Error
                 else if sector_size s1 = 0 then Inl ZeroDivisionError
                 else if cluster_sects s1 = 0 then Inl ZeroDivisionError
                 else
                   let s2 = s1\<lparr>root := boot_root s1,
                               cluster2 := boot_cluster2 s1,
                               cluster_limit :=
                                 (int (sectors s1) - int (boot_cluster2 s1 div sector_size s1))
                                   div int (cluster_sects s1) + 2\<rparr>
                   in if heads s2 \<noteq> 2 then Inl AttributeError
                      else if cluster2 s2 \<noteq> sector_size s2 * track_sects s2
                           then Inl AttributeError
                      else Inr s2)))"

text \<open>\<open>Floppy.__init__\<close>: the buffer, then the boot sector, then the FAT.\<close>

definition floppy_init :: "byte list \<Rightarrow> error + floppy" where
  "floppy_init d = (case boot_open d of Inl err \<Rightarrow> Inl err | Inr s \<Rightarrow> fat_open s)"


section \<open>The built-in blank image and a small image of the same layout\<close>



text \<open>
  An image small enough to run the operations on: 16 sectors of 64 bytes, one sector
  per cluster, two FAT copies of one sector, a root directory of 2 entries, 4 sectors per
  track and 2 heads, so that boot sector, FATs and root fill track 0 of side 1 as in the
  blank image. It has the 12 clusters 2..13.
\<close>

definition small_boot :: "byte list" where
  "small_boot =
     replicate 11 0
     @ [0x40, 0x00, 0x01, 0x01, 0x00, 0x02, 0x02, 0x00, 0x10, 0x00, 0xF9,
        0x01, 0x00, 0x04, 0x00, 0x02, 0x00]
     @ replicate 36 0"

definition small_image :: "byte list \<Rightarrow> byte list \<Rightarrow> byte list \<Rightarrow> byte list \<Rightarrow> byte list" where
  "small_image fat1 fat2 rootdir clusters = small_boot @ fat1 @ fat2 @ rootdir @ clusters"

definition small_fat :: "byte list" where
  "small_fat = [0xF7, 0xFF, 0xFF] @ replicate 61 0"

definition small_floppy :: "byte list" where
  "small_floppy = small_image small_fat small_fat (replicate 64 0) (replicate (12 * 64) 0xE5)"

text \<open>
  A FAT sector in which cluster 2, a cluster of side 2, is in use (it holds \<open>0xFFF\<close>);
  the small image with that FAT in both copies, and the small image with it in the second
  copy only.
\<close>

definition used_fat :: "byte list" where
  "used_fat = [0xF7, 0xFF, 0xFF, 0xFF, 0x0F] @ replicate 59 0"


definition small_mismatch :: "byte list" where
  "small_mismatch = small_image small_fat used_fat (replicate 64 0) (replicate (12 * 64) 0xE5)"

section \<open>Cluster addressing and the side-1-first allocator\<close>


text \<open>
  The computation both \<open>_add_chain\<close> and \<open>_reserve_side1\<close> make at the head of their
  loop body for the raw index \<open>i\<close>: the head \<open>ihead\<close> and the cluster \<open>j\<close> that position
  \<open>l = i - 2\<close> of the side-1-first order stands for. The divisions are Python's floor
  divisions on integers, and each raises on a zero divisor, in the order of the source.
\<close>

definition geometry :: "floppy \<Rightarrow> nat \<Rightarrow> error + (int \<times> int)" where
  "geometry s i =
     (if cluster_sects s = 0 then Inl ZeroDivisionError
      else if track_sects s * 2 = 0 then Inl ZeroDivisionError
      else
        let cside = int (track_sects s) div int (cluster_sects s);
            tcount = int (sectors s) div (int (track_sects s) * 2);
            csplit = (tcount - 1) * cside;
            cdual = (int (track_sects s) * 2) div int (cluster_sects s);
            l = int i - 2
        in if l < csplit then
             (let icluster = l mod cside; itrack = l div cside; ihead = 0
              in Inr (ihead, itrack * cdual + (1 - ihead) * (cdual - cside) + icluster + 2))
           else if cdual - cside = 0 then Inl ZeroDivisionError
           else
             (let icluster = (l - csplit) mod (cdual - cside);
                  itrack = (l - csplit) div (cdual - cside);
                  ihead = 1
              in Inr (ihead, itrack * cdual + (1 - ihead) * (cdual - cside) + icluster + 2)))"

text \<open>\<open>fat[j]\<close> for a Python integer \<open>j\<close>: a negative index counts from the end.\<close>

definition fat_index :: "nat list \<Rightarrow> int \<Rightarrow> error + nat" where
  "fat_index f j =
     (let k = (if j < 0 then int (length f) + j else j)
      in if 0 \<le> k \<and> k < int (length f) then Inr (nat k) else Inl IndexError)"





text \<open>
  The loop of \<open>_reserve_side1\<close> over \<open>range(2,self.cluster_limit)\<close>, with the FAT as it
  is updated and the running count.
\<close>

fun reserve_loop ::
  "floppy \<Rightarrow> bool \<Rightarrow> nat list \<Rightarrow> nat list \<Rightarrow> int \<Rightarrow> error + (nat list \<times> int)" where
  "reserve_loop s reserve [] f count = Inr (f, count)"
| "reserve_loop s reserve (i # is) f count =
     (case geometry s i of
        Inl err \<Rightarrow> Inl err
      | Inr (ihead, j) \<Rightarrow>
          (case fat_index f j of
             Inl err \<Rightarrow> Inl err
           | Inr k \<Rightarrow>
               if ihead = 0 then
                 (if f ! k = 0
                  then reserve_loop s reserve is (if reserve then f[k := 0xFF0] else f) (count + 1)
                  else reserve_loop s reserve is f count)
               else if f ! k \<noteq> 0 then reserve_loop s reserve is f (count - 1)
               else reserve_loop s reserve is f count))"

definition reserve_side1 :: "floppy \<Rightarrow> bool \<Rightarrow> error + (floppy \<times> int)" where
  "reserve_side1 s reserve =
     (case reserve_loop s reserve [2 ..< nat (cluster_limit s)] (fat s) 0 of
        Inl err \<Rightarrow> Inl err
      | Inr (f, count) \<Rightarrow> Inr (s\<lparr>fat := f\<rparr>, count))"

definition free_side1 :: "floppy \<Rightarrow> error + (floppy \<times> int)" where
  "free_side1 s = reserve_side1 s False"





text \<open>
  The side-1-only capacity \<open>csplit\<close> of the loop body, and the successive calls of
  \<open>_add_chain\<close> that adding one file after the other makes, with the start cluster each
  call returns.
\<close>

definition csplit :: "floppy \<Rightarrow> int" where
  "csplit s =
     (int (sectors s) div (int (track_sects s) * 2) - 1)
       * (int (track_sects s) div int (cluster_sects s))"











section \<open>Directory entries\<close>

text \<open>
  \<open>str.encode("ASCII")\<close>, and \<open>_filestring\<close>: the string as ASCII bytes, padded with
  spaces. When the padded string is not of the wanted length the source evaluates
  \<open>raise self.Error(...)\<close> in a function that has no \<open>self\<close>: the exception that leaves
  is \<open>NameError\<close>.
\<close>

definition encode_ascii :: "string \<Rightarrow> error + byte list" where
  "encode_ascii str =
     (if list_all (\<lambda>c. (of_char c :: nat) < 128) str
      then Inr (map (\<lambda>c. of_nat (of_char c)) str)
      else Inl UnicodeEncodeError)"

definition filestring :: "string \<Rightarrow> nat \<Rightarrow> error + byte list" where
  "filestring str len =
     (case encode_ascii str of
        Inl err \<Rightarrow> Inl err
      | Inr b0 \<Rightarrow>
          let b = b0 @ replicate (len - length b0) 0x20
          in if length b \<noteq> len then Inl NameError else Inr b)"

text \<open>\<open>struct.pack\<close> of one unsigned little-endian field of \<open>n\<close> bytes.\<close>

definition pack_le :: "nat \<Rightarrow> int \<Rightarrow> error + byte list" where
  "pack_le n v =
     (if 0 \<le> v \<and> v < 256 ^ n then Inr (map (\<lambda>i. word_of_int (v div 256 ^ i)) [0 ..< n])
      else Inl StructError)"

text \<open>\<open>str.find\<close> and \<open>str.rfind\<close> of one character: its first or last index, or \<open>-1\<close>.\<close>

definition find_char :: "char \<Rightarrow> string \<Rightarrow> int" where
  "find_char c str =
     (if c \<in> set str then int (length (takeWhile (\<lambda>x. x \<noteq> c) str)) else -1)"

definition rfind_char :: "char \<Rightarrow> string \<Rightarrow> int" where
  "rfind_char c str =
     (if c \<in> set str
      then int (length str) - 1 - int (length (takeWhile (\<lambda>x. x \<noteq> c) (rev str)))
      else -1)"

text \<open>
  A \<open>FileEntry\<close>. The start cluster and the size are unsigned where they are read and
  where they are assigned; the date and time come from the clock; the location in the
  directory is \<open>-1\<close> until the entry is read from or inserted into one.
\<close>

record file_entry =
  e_data :: "byte list"
  e_path :: string
  e_incipit :: nat
  e_attributes :: nat
  e_write_time :: int
  e_write_date :: int
  e_cluster :: nat
  e_size :: nat
  e_dir_cluster :: int
  e_dir_index :: int

definition EMPTY :: nat where
  "EMPTY = 0xE5"

text \<open>
  \<open>FileEntry.__init__\<close> on the bytes of an entry. The fields are those of
  \<open>struct.unpack("<BHHHHHHHHL", data[11:32])\<close>, which needs exactly 21 bytes.
\<close>

definition entry_init :: "byte list \<Rightarrow> int \<Rightarrow> int \<Rightarrow> error + file_entry" where
  "entry_init d dir_cluster dir_index =
     (case getitem d 0 of
        Inl err \<Rightarrow> Inl err
      | Inr b0 \<Rightarrow>
          (case (if unat b0 \<noteq> 0x00 \<and> unat b0 \<noteq> EMPTY
                 then (case decode_ascii (slice d 0 8) of
                         Inl err \<Rightarrow> Inl err
                       | Inr filename \<Rightarrow>
                           (case decode_ascii (slice d 8 11) of
                              Inl err \<Rightarrow> Inl err
                            | Inr extension \<Rightarrow>
                                Inr (if length (rstrip extension) > 0
                                     then rstrip filename @ ''.'' @ rstrip extension
                                     else rstrip filename)))
                 else Inr []) of
             Inl err \<Rightarrow> Inl err
           | Inr p \<Rightarrow>
               if length (slice d 11 32) \<noteq> 21 then Inl StructError
               else Inr \<lparr> e_data = d, e_path = p, e_incipit = unat b0,
                          e_attributes = le_uint (slice d 11 12),
                          e_write_time = int (le_uint (slice d 22 24)),
                          e_write_date = int (le_uint (slice d 24 26)),
                          e_cluster = le_uint (slice d 26 28),
                          e_size = le_uint (slice d 28 32),
                          e_dir_cluster = dir_cluster, e_dir_index = dir_index \<rparr>))"

text \<open>\<open>FileEntry()\<close> with no data: the empty entry.\<close>

definition entry_blank :: file_entry where
  "entry_blank =
     \<lparr> e_data = 0xE5 # replicate 31 0, e_path = [], e_incipit = EMPTY, e_attributes = 0,
       e_write_time = 0, e_write_date = 0, e_cluster = 0, e_size = 0,
       e_dir_cluster = -1, e_dir_index = -1 \<rparr>"

text \<open>
  \<open>FileEntry.compile\<close>: the name is split at the first period and written unless the
  incipit is \<open>0x00\<close> or \<open>0xEF\<close>; then the attributes and the packed
  \<open>"<HHHL"\<close> fields. The entry keeps the rebuilt bytes; they are also the result.
\<close>

definition compile :: "file_entry \<Rightarrow> error + (file_entry \<times> byte list)" where
  "compile e =
     (let period = find_char CHR ''.'' (e_path e);
          filename = (if period \<ge> 0 then take (nat period) (e_path e) else e_path e);
          extension = (if period \<ge> 0 then drop (nat period + 1) (e_path e) else [])
      in case (if e_incipit e \<noteq> 0x00 \<and> e_incipit e \<noteq> 0xEF
               then (case filestring filename 8 of
                       Inl err \<Rightarrow> Inl err
                     | Inr f \<Rightarrow>
                         (case filestring extension 3 of
                            Inl err \<Rightarrow> Inl err
                          | Inr x \<Rightarrow> Inr (slice_set (slice_set (e_data e) 0 8 f) 8 11 x)))
               else setitem (e_data e) 0 (of_nat (e_incipit e))) of
           Inl err \<Rightarrow> Inl err
         | Inr d1 \<Rightarrow>
             (case setitem d1 11 (of_nat (e_attributes e)) of
                Inl err \<Rightarrow> Inl err
              | Inr d2 \<Rightarrow>
                  (case pack_le 2 (e_write_time e) of
                     Inl err \<Rightarrow> Inl err
                   | Inr t \<Rightarrow>
                      (case pack_le 2 (e_write_date e) of
                         Inl err \<Rightarrow> Inl err
                       | Inr dt \<Rightarrow>
                          (case pack_le 2 (int (e_cluster e)) of
                             Inl err \<Rightarrow> Inl err
                           | Inr c \<Rightarrow>
                              (case pack_le 4 (int (e_size e)) of
                                 Inl err \<Rightarrow> Inl err
                               | Inr sz \<Rightarrow>
                                   let d3 = slice_set d2 22 32 (t @ dt @ c @ sz)
                                   in Inr (e\<lparr>e_data := d3\<rparr>, d3)))))))"

text \<open>
  The clock, and \<open>FileEntry.fat_time\<close> on it: the pair \<open>(date, time)\<close>.
\<close>

record datetime =
  year :: int
  month :: int
  day :: int
  hour :: int
  minute :: int
  second :: int

definition fat_time :: "datetime \<Rightarrow> int \<times> int" where
  "fat_time now =
     (push_bit 9 (year now - 1980) OR push_bit 5 (month now) OR day now,
      push_bit 11 (hour now) OR push_bit 5 (minute now) OR drop_bit 1 (second now))"

text \<open>\<open>set_name\<close>, \<open>set_now\<close> and the constructors of new entries.\<close>

definition set_name :: "file_entry \<Rightarrow> string \<Rightarrow> error + file_entry" where
  "set_name e str =
     (case filestring str 12 of
        Inl err \<Rightarrow> Inl err
      | Inr b \<Rightarrow>
          (case getitem b 0 of
             Inl err \<Rightarrow> Inl err
           | Inr b0 \<Rightarrow> Inr (e\<lparr>e_path := str, e_incipit := unat b0\<rparr>)))"

definition set_now :: "file_entry \<Rightarrow> datetime \<Rightarrow> file_entry" where
  "set_now e now = e\<lparr>e_write_date := fst (fat_time now), e_write_time := snd (fat_time now)\<rparr>"

definition new_file :: "string \<Rightarrow> datetime \<Rightarrow> error + file_entry" where
  "new_file name now =
     (case set_name entry_blank name of
        Inl err \<Rightarrow> Inl err
      | Inr e \<Rightarrow> Inr ((set_now e now)\<lparr>e_attributes := 0x00\<rparr>))"

definition new_dir :: "string \<Rightarrow> datetime \<Rightarrow> error + file_entry" where
  "new_dir name now =
     (case set_name entry_blank name of
        Inl err \<Rightarrow> Inl err
      | Inr e \<Rightarrow> Inr ((set_now e now)\<lparr>e_attributes := 0x10\<rparr>))"

definition new_terminal :: file_entry where
  "new_terminal = entry_blank\<lparr>e_incipit := 0x00\<rparr>"



section \<open>Round trip of the FAT table codec\<close>

declare fat_open_loop.simps [simp del]

lemma n255: "(255::nat) = mask 8" by (simp add: mask_eq_exp_minus_1)
lemma n15: "(15::nat) = mask 4" by (simp add: mask_eq_exp_minus_1)
lemma n240: "(240::nat) = push_bit 4 (mask 4)" by (simp add: mask_eq_exp_minus_1 push_bit_eq_mult)

lemma unat_byte_of_nat: "unat (of_nat n :: byte) = take_bit 8 n"
  by (simp add: unat_of_nat take_bit_eq_mod)

lemma lt4096_bit: "(x::nat) < 4096 \<Longrightarrow> bit x n \<Longrightarrow> n < 12"
proof -
  assume a: "x < 4096" "bit x n"
  have "take_bit 12 x = x" using a(1) by (simp add: take_bit_nat_eq_self)
  then have "bit (take_bit 12 x) n" using a(2) by simp
  then show "n < 12" by (simp add: bit_simps)
qed

lemma nib_a: "unat (of_nat (x AND 0xFF) :: byte) = x AND 0xFF"
  unfolding n255 unat_byte_of_nat by (auto simp add: bit_eq_iff bit_simps)

lemma nib_b: "unat (of_nat ((unat (b::byte) AND 0xF0) OR (y AND 0x0F)) :: byte) AND 0x0F = y AND 0x0F"
  unfolding n15 n240 unat_byte_of_nat by (auto simp add: bit_eq_iff bit_simps)

lemma nib_c: "(x::nat) < 4096 \<Longrightarrow> (x AND 0xFF) OR push_bit 8 (drop_bit 8 x AND 0x0F) = x"
  unfolding n15 n255 by (auto simp add: bit_eq_iff bit_simps dest: lt4096_bit)

lemma nib_d1: "unat (of_nat ((unat (b::byte) AND 0x0F) OR (y AND 0xF0)) :: byte) AND 0xF0 = y AND 0xF0"
  unfolding n15 n240 unat_byte_of_nat by (auto simp add: bit_eq_iff bit_simps)

lemma nib_d2: "unat (of_nat ((unat (b::byte) AND 0x0F) OR (y AND 0xF0)) :: byte) AND 0x0F = unat b AND 0x0F"
  unfolding n15 n240 unat_byte_of_nat by (auto simp add: bit_eq_iff bit_simps)

lemma nib_f: "(x::nat) < 4096 \<Longrightarrow> drop_bit 4 (push_bit 4 x AND 0xF0) OR push_bit 4 (unat (of_nat (drop_bit 4 x AND 0xFF) :: byte)) = x"
  unfolding n240 n255 unat_byte_of_nat by (auto simp add: bit_eq_iff bit_simps dest: lt4096_bit)

lemma and1_even: "((i::nat) AND 1 = 0) = even i"
  by (simp add: and_one_eq even_iff_mod_2_eq_zero)


lemma even_entry:
  assumes "x < 4096" "even (length acc)" "e + 2 \<le> fe" "e + 1 < length d"
    and "unat (d ! e) = x AND 0xFF" "unat (d ! (e + 1)) AND 0x0F = drop_bit 8 x AND 0x0F"
  shows "fat_open_loop d fe e acc = fat_open_loop d fe (e + 1) (acc @ [x])"
proof -
  have e: "e < length d" using assms(4) by simp
  have v: "unat (d ! e) OR push_bit 8 (unat (d ! (e + 1)) AND 0x0F) = x"
    by (simp only: assms(5,6) nib_c[OF assms(1)])
  show ?thesis
    apply (subst fat_open_loop.simps)
    apply (simp only: assms(2,3,4) e if_True getitem_def sum.case and1_even v)
    done
qed

lemma odd_entry:
  assumes "x < 4096" "odd (length acc)" "e + 2 \<le> fe" "e + 1 < length d"
    and "unat (d ! e) AND 0xF0 = push_bit 4 x AND 0xF0"
        "d ! (e + 1) = of_nat (drop_bit 4 x AND 0xFF)"
  shows "fat_open_loop d fe e acc = fat_open_loop d fe (e + 2) (acc @ [x])"
proof -
  have e: "e < length d" using assms(4) by simp
  have v: "drop_bit 4 (unat (d ! e) AND 0xF0) OR push_bit 4 (unat (d ! (e + 1))) = x"
    by (simp only: assms(5,6) nib_f[OF assms(1)])
  show ?thesis
    apply (subst fat_open_loop.simps)
    apply (simp only: assms(2,3,4) e if_True if_False getitem_def sum.case and1_even v)
    done
qed

lemma flush_then_open:
  assumes "\<forall>x\<in>set xs. x < 4096"
    and "e = start + (3 * i) div 2"
    and "0 < i + length xs \<longrightarrow> start + (3 * (i + length xs - 1)) div 2 + 2 \<le> fe"
    and "fe < start + (3 * (i + length xs)) div 2 + 2"
    and "fe \<le> length d"
  shows "\<exists>d'. fat_flush_loop xs i e d = Inr d' \<and> length d' = length d
           \<and> (\<forall>k<e. d' ! k = d ! k)
           \<and> (odd i \<longrightarrow> unat (d' ! e) AND 0x0F = unat (d ! e) AND 0x0F)
           \<and> (\<forall>acc. length acc = i \<longrightarrow> fat_open_loop d' fe e acc = Inr (acc @ xs))"
  using assms
proof (induction xs arbitrary: i e d)
  case Nil
  have "\<not> e + 2 \<le> fe" using Nil by simp
  then show ?case by (subst fat_open_loop.simps) simp
next
  case (Cons x xs)
  have x: "x < 4096" using Cons.prems(1) by simp
  have xs: "\<forall>x\<in>set xs. x < 4096" using Cons.prems(1) by simp
  have lo: "start + (3 * (i + length xs)) div 2 + 2 \<le> fe" using Cons.prems(3) by simp
  have hi: "fe < start + (3 * (Suc i + length xs)) div 2 + 2" using Cons.prems(4) by simp
  have e2: "e + 2 \<le> fe" using lo Cons.prems(2) by simp
  have e1: "e + 1 < length d" using e2 Cons.prems(5) by simp
  show ?case
  proof (cases "even i")
    case True
    define d1 where "d1 = d[e := of_nat (x AND 0xFF)]"
    define d2 where "d2 = d1[e + 1 := of_nat ((unat (d1 ! (e + 1)) AND 0xF0) OR (drop_bit 8 x AND 0x0F))]"
    have step: "fat_flush_loop (x # xs) i e d = fat_flush_loop xs (i + 1) (e + 1) d2"
      using True e1 by (simp add: and1_even setitem_def getitem_def d1_def d2_def)
    have e': "e + 1 = start + (3 * (i + 1)) div 2" using True Cons.prems(2) by presburger
    have len2: "length d2 = length d" by (simp add: d1_def d2_def)
    have lo': "0 < i + 1 + length xs \<longrightarrow> start + (3 * (i + 1 + length xs - 1)) div 2 + 2 \<le> fe"
      using lo by simp
    have hi': "fe < start + (3 * (i + 1 + length xs)) div 2 + 2" using hi by simp
    have fe': "fe \<le> length d2" using Cons.prems(5) len2 by simp
    obtain d' where d': "fat_flush_loop xs (i + 1) (e + 1) d2 = Inr d'" "length d' = length d2"
      "\<forall>k<e + 1. d' ! k = d2 ! k"
      "odd (i + 1) \<longrightarrow> unat (d' ! (e + 1)) AND 0x0F = unat (d2 ! (e + 1)) AND 0x0F"
      "\<forall>acc. length acc = i + 1 \<longrightarrow> fat_open_loop d' fe (e + 1) acc = Inr (acc @ xs)"
      using Cons.IH[where i = "i + 1" and e = "e + 1" and d = d2, OF xs e' lo' hi' fe'] by (elim exE conjE) (rule that, assumption+)
    have len1: "length d1 = length d" by (simp add: d1_def)
    have "d' ! e = d2 ! e" using d'(3) by simp
    also have "d2 ! e = d1 ! e" by (simp add: d2_def)
    also have "d1 ! e = of_nat (x AND 0xFF)" using e1 by (simp add: d1_def)
    finally have b0: "unat (d' ! e) = x AND 0xFF" by (simp only: nib_a)
    have "odd (i + 1)" using True by simp
    then have "unat (d' ! (e + 1)) AND 0x0F = unat (d2 ! (e + 1)) AND 0x0F"
      using d'(4) by blast
    moreover have "d2 ! (e + 1) = of_nat ((unat (d1 ! (e + 1)) AND 0xF0) OR (drop_bit 8 x AND 0x0F))"
      unfolding d2_def using e1 len1 by (simp only: nth_list_update_eq)
    ultimately have b1: "unat (d' ! (e + 1)) AND 0x0F = drop_bit 8 x AND 0x0F"
      by (simp only: nib_b)
    have "\<forall>acc. length acc = i \<longrightarrow> fat_open_loop d' fe e acc = Inr (acc @ x # xs)"
    proof (intro allI impI)
      fix acc :: "nat list" assume a: "length acc = i"
      have "fat_open_loop d' fe e acc = fat_open_loop d' fe (e + 1) (acc @ [x])"
        using even_entry[OF x _ e2 _ b0 b1, of acc] True a e1 d'(2) len2 by simp
      then show "fat_open_loop d' fe e acc = Inr (acc @ x # xs)" using d'(5) a by simp
    qed
    moreover have "\<forall>k<e. d' ! k = d ! k" using d'(3) by (simp add: d2_def d1_def)
    ultimately show ?thesis using step d'(1,2) len2 True by simp
  next
    case False
    define d1 where "d1 = d[e := of_nat ((unat (d ! e) AND 0x0F) OR (push_bit 4 x AND 0xF0))]"
    define d2 where "d2 = d1[e + 1 := of_nat (drop_bit 4 x AND 0xFF)]"
    have step: "fat_flush_loop (x # xs) i e d = fat_flush_loop xs (i + 1) (e + 2) d2"
      using False e1 by (simp add: odd_iff_mod_2_eq_one setitem_def getitem_def d1_def d2_def)
    have e': "e + 2 = start + (3 * (i + 1)) div 2" using False Cons.prems(2) by presburger
    have len2: "length d2 = length d" by (simp add: d1_def d2_def)
    have lo': "0 < i + 1 + length xs \<longrightarrow> start + (3 * (i + 1 + length xs - 1)) div 2 + 2 \<le> fe"
      using lo by simp
    have hi': "fe < start + (3 * (i + 1 + length xs)) div 2 + 2" using hi by simp
    have fe': "fe \<le> length d2" using Cons.prems(5) len2 by simp
    obtain d' where d': "fat_flush_loop xs (i + 1) (e + 2) d2 = Inr d'" "length d' = length d2"
      "\<forall>k<e + 2. d' ! k = d2 ! k"
      "\<forall>acc. length acc = i + 1 \<longrightarrow> fat_open_loop d' fe (e + 2) acc = Inr (acc @ xs)"
      using Cons.IH[where i = "i + 1" and e = "e + 2" and d = d2, OF xs e' lo' hi' fe'] by (elim exE conjE) (rule that, assumption+)
    have len1: "length d1 = length d" by (simp add: d1_def)
    have "d' ! e = d2 ! e" "d' ! (e + 1) = d2 ! (e + 1)" using d'(3) by simp_all
    moreover have "d2 ! e = d1 ! e" by (simp add: d2_def)
    moreover have "d1 ! e = of_nat ((unat (d ! e) AND 0x0F) OR (push_bit 4 x AND 0xF0))"
      unfolding d1_def using e1 by (simp only: nth_list_update_eq add_lessD1)
    moreover have "d2 ! (e + 1) = of_nat (drop_bit 4 x AND 0xFF)"
      unfolding d2_def using e1 len1 by (simp only: nth_list_update_eq)
    ultimately have b0: "d' ! e = of_nat ((unat (d ! e) AND 0x0F) OR (push_bit 4 x AND 0xF0))"
      and b1: "d' ! (e + 1) = of_nat (drop_bit 4 x AND 0xFF)" by simp_all
    have b0h: "unat (d' ! e) AND 0xF0 = push_bit 4 x AND 0xF0" by (simp only: b0 nib_d1)
    have b0l: "unat (d' ! e) AND 0x0F = unat (d ! e) AND 0x0F" by (simp only: b0 nib_d2)
    have "\<forall>acc. length acc = i \<longrightarrow> fat_open_loop d' fe e acc = Inr (acc @ x # xs)"
    proof (intro allI impI)
      fix acc :: "nat list" assume a: "length acc = i"
      have "fat_open_loop d' fe e acc = fat_open_loop d' fe (e + 2) (acc @ [x])"
        using odd_entry[OF x _ e2 _ b0h b1, of acc] False a e1 d'(2) len2 by simp
      then show "fat_open_loop d' fe e acc = Inr (acc @ x # xs)" using d'(4) a by simp
    qed
    moreover have "\<forall>k<e. d' ! k = d ! k" using d'(3) by (simp add: d2_def d1_def)
    ultimately show ?thesis using step d'(1,2) len2 b0l by simp
  qed
qed

text \<open>
  C1. For every array of 12-bit entries (each at most \<open>0xFFF\<close>, of even or odd length)
  and every buffer that has room for it, the packing loop of \<open>_fat_flush\<close> succeeds, and
  the reading loop of \<open>_fat_open\<close> run over the bytes just written (a region of
  \<open>(3 * n + 1) div 2\<close> bytes for \<open>n\<close> entries) returns the original array.
\<close>

theorem fat_pack_unpack:
  assumes "\<forall>x\<in>set xs. x \<le> 0xFFF"
    and "start + (3 * length xs + 1) div 2 \<le> length d"
  shows "\<exists>d'. fat_flush_loop xs 0 start d = Inr d'
           \<and> fat_open_loop d' (start + (3 * length xs + 1) div 2) start [] = Inr xs"
proof -
  have a: "\<forall>x\<in>set xs. x < 4096" using assms(1) by auto
  have b: "start = start + (3 * 0) div 2" by simp
  have c: "0 < 0 + length xs \<longrightarrow>
      start + (3 * (0 + length xs - 1)) div 2 + 2 \<le> start + (3 * length xs + 1) div 2"
    by (cases "length xs") auto
  have e: "start + (3 * length xs + 1) div 2 < start + (3 * (0 + length xs)) div 2 + 2"
    by simp
  show ?thesis
    using flush_then_open[OF a b c e assms(2)] by (elim exE conjE) (rule exI, simp)
qed


theorem fat_pack_unpack_witness:
  "\<exists>d'. fat_flush_loop [0xFF7, 0xFFF, 0x123] 0 2 (replicate 8 0xE5) = Inr d'
        \<and> fat_open_loop d' 7 2 [] = Inr [0xFF7, 0xFFF, 0x123]"
  using fat_pack_unpack [of "[0xFF7, 0xFFF, 0x123]" 2 "replicate 8 0xE5"] by simp


section \<open>Loading an image\<close>

lemma fat_verify_mismatch:
  assumes "i \<in> set js"
    and "slice d fs (fs + fb) \<noteq> slice d (fs + fb * i) (fs + fb * i + fb)"
  shows "fat_verify d fs fb js = Inl Error"
  using assms by (induction js) (auto simp: Let_def)

text \<open>
  C8. Whenever some configured FAT copy beyond the first differs from copy 0 (as the
  byte ranges the loader compares), \<open>_fat_open\<close> raises \<open>Floppy.Error\<close> and so does the
  constructor: no image results. When \<open>_fat_open\<close> or the constructor does return, the
  bytes of the image, and with them every FAT copy, are the ones given.
\<close>

theorem fat_open_mismatch_fatal:
  "((\<exists>i. 1 \<le> i \<and> i < fat_count s
        \<and> slice (data s) (reserved_sects s * sector_size s)
              (reserved_sects s * sector_size s + fat_sects s * sector_size s)
          \<noteq> slice (data s) (reserved_sects s * sector_size s + fat_sects s * sector_size s * i)
              (reserved_sects s * sector_size s + fat_sects s * sector_size s * i
                 + fat_sects s * sector_size s))
     \<longrightarrow> fat_open s = Inl Error \<and> (boot_open d = Inr s \<longrightarrow> floppy_init d = Inl Error))
   \<and> (\<forall>s'. fat_open s = Inr s' \<longrightarrow> data s' = data s)
   \<and> (\<forall>s'. floppy_init d = Inr s' \<longrightarrow> data s' = d)"
proof (intro conjI impI allI)
  assume "\<exists>i. 1 \<le> i \<and> i < fat_count s
        \<and> slice (data s) (reserved_sects s * sector_size s)
              (reserved_sects s * sector_size s + fat_sects s * sector_size s)
          \<noteq> slice (data s) (reserved_sects s * sector_size s + fat_sects s * sector_size s * i)
              (reserved_sects s * sector_size s + fat_sects s * sector_size s * i
                 + fat_sects s * sector_size s)"
  then obtain i where i: "i \<in> set [1 ..< fat_count s]"
    and ne: "slice (data s) (reserved_sects s * sector_size s)
              (reserved_sects s * sector_size s + fat_sects s * sector_size s)
          \<noteq> slice (data s) (reserved_sects s * sector_size s + fat_sects s * sector_size s * i)
              (reserved_sects s * sector_size s + fat_sects s * sector_size s * i
                 + fat_sects s * sector_size s)"
    by auto
  show e: "fat_open s = Inl Error"
    using fat_verify_mismatch[OF i ne] by (simp add: fat_open_def Let_def)
  then show "floppy_init d = Inl Error" if "boot_open d = Inr s"
    using that by (simp add: floppy_init_def)
next
  fix s' assume "fat_open s = Inr s'"
  then show "data s' = data s"
    by (auto simp: fat_open_def Let_def split: if_splits sum.splits)
next
  fix s' assume a: "floppy_init d = Inr s'"
  then obtain s0 where s0: "boot_open d = Inr s0" "fat_open s0 = Inr s'"
    by (auto simp: floppy_init_def split: sum.splits)
  have "data s0 = d"
    using s0(1) by (auto simp: boot_open_def boot_fields_def Let_def split: if_splits sum.splits)
  moreover have "data s' = data s0"
    using s0(2) by (auto simp: fat_open_def Let_def split: if_splits sum.splits)
  ultimately show "data s' = d" by simp
qed



section \<open>The blank image as the constructor parses it\<close>

lemma slice_append1: "b \<le> length xs \<Longrightarrow> slice (xs @ ys) a b = slice xs a b"
  by (simp add: slice_def)

lemma slice_append_mid:
  "a = length p \<Longrightarrow> b = length p + length f \<Longrightarrow> slice (p @ f @ r) a b = f"
  by (simp add: slice_def)

lemma slice_append_mid2:
  "a = length p + length f1 \<Longrightarrow> b = length p + length f1 + length f2
   \<Longrightarrow> slice (p @ f1 @ f2 @ r) a b = f2"
  by (simp add: slice_def)











lemma span_stop: "e = start + (3 * (n::nat)) div 2 \<Longrightarrow> \<not> e + 2 \<le> fe \<Longrightarrow> (2 * (fe - start)) div 3 \<le> n"
  by (cases "even n") (auto elim!: evenE oddE)

lemma span_go: "e = start + (3 * (n::nat)) div 2 \<Longrightarrow> e + 2 \<le> fe \<Longrightarrow> n < (2 * (fe - start)) div 3"
  by (cases "even n") (auto elim!: evenE oddE)

lemma span_even: "even (n::nat) \<Longrightarrow> (3 * n) div 2 + 1 = (3 * (n + 1)) div 2"
  by (auto elim!: evenE)

lemma span_odd: "odd (n::nat) \<Longrightarrow> (3 * n) div 2 + 2 = (3 * (n + 1)) div 2"
  by (auto elim!: oddE)

lemma open_zeros:
  assumes "e = start + (3 * length acc) div 2"
    and "\<forall>k. e \<le> k \<and> k < fe \<longrightarrow> d ! k = 0"
    and "fe \<le> length d"
  shows "fat_open_loop d fe e acc
           = Inr (acc @ replicate ((2 * (fe - start)) div 3 - length acc) 0)"
  using assms
proof (induction d fe e acc rule: fat_open_loop.induct)
  case (1 d fe e acc)
  show ?case
  proof (cases "e + 2 \<le> fe")
    case False
    have "(2 * (fe - start)) div 3 \<le> length acc"
      using span_stop[OF "1.prems"(1) False] .
    then show ?thesis
      using False by (subst fat_open_loop.simps) simp
  next
    case True
    have lt: "length acc < (2 * (fe - start)) div 3"
      using span_go[OF "1.prems"(1) True] .
    have z0: "d ! e = 0" and z1: "d ! (e + 1) = 0"
      using True "1.prems"(2) by auto
    have b: "e < length d" "e + 1 < length d" using True "1.prems"(3) by auto
    have g: "getitem d e = Inr 0" "getitem d (e + 1) = Inr 0"
      using b z0 z1 by (simp_all add: getitem_def)
    have rep: "replicate ((2 * (fe - start)) div 3 - length acc) (0::nat)
        = 0 # replicate ((2 * (fe - start)) div 3 - length (acc @ [0::nat])) 0"
      using lt by (cases "(2 * (fe - start)) div 3 - length acc") auto
    show ?thesis
    proof (cases "even (length acc)")
      case even: True
      have e': "e + 1 = start + (3 * length (acc @ [0::nat])) div 2"
        using span_even[OF even] "1.prems"(1) by simp
      have z': "\<forall>k. e + 1 \<le> k \<and> k < fe \<longrightarrow> d ! k = 0" using "1.prems"(2) by auto
      have cond: "length acc AND 1 = 0" using even by (simp add: and_one_eq)
      have ih: "fat_open_loop d fe (e + 1) (acc @ [0])
          = Inr ((acc @ [0]) @ replicate ((2 * (fe - start)) div 3 - length (acc @ [0::nat])) 0)"
        using "1.IH"(1)[OF True g(1) g(2) cond] e' z' "1.prems"(3) by simp
      have "fat_open_loop d fe e acc = fat_open_loop d fe (e + 1) (acc @ [0])"
        using True g cond by (subst fat_open_loop.simps) simp
      then show ?thesis using ih rep by simp
    next
      case odd: False
      have e': "e + 2 = start + (3 * length (acc @ [0::nat])) div 2"
        using span_odd[OF odd] "1.prems"(1) by simp
      have z': "\<forall>k. e + 2 \<le> k \<and> k < fe \<longrightarrow> d ! k = 0" using "1.prems"(2) by auto
      have cond: "length acc AND 1 \<noteq> 0" using odd by (simp add: and_one_eq odd_iff_mod_2_eq_one)
      have ih: "fat_open_loop d fe (e + 2) (acc @ [0])
          = Inr ((acc @ [0]) @ replicate ((2 * (fe - start)) div 3 - length (acc @ [0::nat])) 0)"
        using "1.IH"(2)[OF True g(1) g(2) cond] e' z' "1.prems"(3) by simp
      have "fat_open_loop d fe e acc = fat_open_loop d fe (e + 2) (acc @ [0])"
        using True g cond by (subst fat_open_loop.simps) simp
      then show ?thesis using ih rep by simp
    qed
  qed
qed







section \<open>Allocation order on the blank image\<close>


















section \<open>The small image as the constructor parses it\<close>

lemma small_boot_len: "length small_boot = 64" by (simp add: small_boot_def)

lemma small_image_len:
  "length f1 = 64 \<Longrightarrow> length f2 = 64 \<Longrightarrow> length rt = 64 \<Longrightarrow> length cl = 768
   \<Longrightarrow> length (small_image f1 f2 rt cl) = 1024"
  by (simp add: small_image_def small_boot_len)

lemma small_image_slice_head:
  "b \<le> 64 \<Longrightarrow> slice (small_image f1 f2 rt cl) a b = slice small_boot a b"
  by (simp add: small_image_def slice_append1 small_boot_len)

lemma small_image_fields:
  "boot_fields (small_image f1 f2 rt cl) =
     \<lparr> data = small_image f1 f2 rt cl, sector_size = 64, cluster_sects = 1, reserved_sects = 1,
       fat_count = 2, root_max = 2, sectors = 16, fat_sects = 1, track_sects = 4,
       heads = 2, volume_id = 0, volume_label = [], root = 0, cluster2 = 0,
       cluster_limit = 0, fat = [] \<rparr>"
  by (simp add: boot_fields_def small_image_slice_head) (simp add: small_boot_def slice_def)

lemma small_image_38:
  assumes "length f1 = 64" "length f2 = 64" "length rt = 64" "length cl = 768"
  shows "getitem (small_image f1 f2 rt cl) 38 = Inr 0"
proof -
  have "small_image f1 f2 rt cl ! 38 = small_boot ! 38"
    by (simp add: small_image_def nth_append small_boot_len)
  then show ?thesis
    by (simp add: getitem_def small_image_len[OF assms] small_boot_def nth_append)
qed

lemma small_image_boot_open:
  assumes "length f1 = 64" "length f2 = 64" "length rt = 64" "length cl = 768"
  shows "boot_open (small_image f1 f2 rt cl) =
     Inr \<lparr> data = small_image f1 f2 rt cl, sector_size = 64, cluster_sects = 1,
       reserved_sects = 1, fat_count = 2, root_max = 2, sectors = 16, fat_sects = 1,
       track_sects = 4, heads = 2, volume_id = 0, volume_label = [], root = 192,
       cluster2 = 256, cluster_limit = 14, fat = [] \<rparr>"
  by (simp add: boot_open_def small_image_38[OF assms] small_image_fields
      small_image_len[OF assms] boot_root_def boot_cluster2_def)

lemma small_image_fat1:
  "length f1 = 64 \<Longrightarrow> slice (small_image f1 f2 rt cl) 64 128 = f1"
  unfolding small_image_def by (rule slice_append_mid) (simp_all add: small_boot_len)

lemma small_image_fat2:
  "length f1 = 64 \<Longrightarrow> length f2 = 64 \<Longrightarrow> slice (small_image f1 f2 rt cl) 128 192 = f2"
  unfolding small_image_def by (rule slice_append_mid2) (simp_all add: small_boot_len)

lemma small_image_nth_fat:
  "length f1 = 64 \<Longrightarrow> 64 \<le> k \<Longrightarrow> k < 128 \<Longrightarrow> small_image f1 f2 rt cl ! k = f1 ! (k - 64)"
  by (auto simp: small_image_def nth_append small_boot_len)

lemma upt_1_2: "[Suc 0 ..< 2] = [Suc 0]" by (simp add: upt_conv_Cons)

lemma small_image_init:
  assumes "length f1 = 64" "length rt = 64" "length cl = 768"
    and "fat_open_loop (small_image f1 f1 rt cl) 128 64 [] = Inr f"
  shows "floppy_init (small_image f1 f1 rt cl) =
     Inr \<lparr> data = small_image f1 f1 rt cl, sector_size = 64, cluster_sects = 1,
       reserved_sects = 1, fat_count = 2, root_max = 2, sectors = 16, fat_sects = 1,
       track_sects = 4, heads = 2, volume_id = 0, volume_label = [], root = 192,
       cluster2 = 256, cluster_limit = 14, fat = f \<rparr>"
  using assms(4)
  by (simp add: floppy_init_def small_image_boot_open[OF assms(1) assms(1) assms(2,3)]
      fat_open_def small_image_fat1[OF assms(1)] small_image_fat2[OF assms(1) assms(1)] upt_1_2)

lemma small_fat_len: "length small_fat = 64" by (simp add: small_fat_def)

lemma small_fat_read:
  assumes "length rt = 64" "length cl = 768"
  shows "fat_open_loop (small_image small_fat small_fat rt cl) 128 64 []
           = Inr ([0xFF7, 0xFFF] @ replicate 40 0)"
proof -
  let ?d = "small_image small_fat small_fat rt cl"
  have len: "length ?d = 1024"
    by (rule small_image_len) (simp_all add: small_fat_len assms)
  have nth: "?d ! k = small_fat ! (k - 64)" if "64 \<le> k" "k < 128" for k
    using that by (simp add: small_image_nth_fat small_fat_len)
  have "small_fat ! m = 0" if "3 \<le> m" "m < 64" for m
    using that by (auto simp: small_fat_def nth_append)
  then have z: "\<forall>k. 67 \<le> k \<and> k < 128 \<longrightarrow> ?d ! k = 0"
    using nth by auto
  have b: "?d ! 64 = 0xF7" "?d ! 65 = 0xFF" "?d ! 66 = 0xFF"
    by (simp_all add: nth) (simp_all add: small_fat_def)
  have "fat_open_loop ?d 128 64 [] = fat_open_loop ?d 128 65 [0xFF7]"
    by (subst fat_open_loop.simps) (simp add: getitem_def len b)
  also have "\<dots> = fat_open_loop ?d 128 67 [0xFF7, 0xFFF]"
    by (subst fat_open_loop.simps) (simp add: getitem_def len b)
  also have "\<dots> = Inr ([0xFF7, 0xFFF] @ replicate ((2 * (128 - 64)) div 3 - length [0xFF7, 0xFFF :: nat]) 0)"
    by (rule open_zeros) (simp_all add: z len)
  finally show ?thesis by simp
qed

lemma small_init:
  "floppy_init small_floppy =
     Inr \<lparr> data = small_floppy, sector_size = 64, cluster_sects = 1, reserved_sects = 1,
       fat_count = 2, root_max = 2, sectors = 16, fat_sects = 1, track_sects = 4,
       heads = 2, volume_id = 0, volume_label = [], root = 192, cluster2 = 256,
       cluster_limit = 14, fat = [0xFF7, 0xFFF] @ replicate 40 0 \<rparr>"
  unfolding small_floppy_def
  by (rule small_image_init) (simp_all add: small_fat_len small_fat_read)



lemma used_fat_len: "length used_fat = 64" by (simp add: used_fat_def)







section \<open>Closing side 1\<close>












section \<open>The theorems on concrete images\<close>





lemma small_mismatch_boot:
  "boot_open small_mismatch =
     Inr \<lparr> data = small_mismatch, sector_size = 64, cluster_sects = 1,
       reserved_sects = 1, fat_count = 2, root_max = 2, sectors = 16, fat_sects = 1,
       track_sects = 4, heads = 2, volume_id = 0, volume_label = [], root = 192,
       cluster2 = 256, cluster_limit = 14, fat = [] \<rparr>"
  unfolding small_mismatch_def
  by (rule small_image_boot_open) (simp_all add: small_fat_len used_fat_len)

theorem fat_open_mismatch_fatal_witness:
  "floppy_init small_mismatch = Inl Error
   \<and> data (projr (floppy_init small_floppy)) = small_floppy"
proof -
  let ?s = "\<lparr> data = small_mismatch, sector_size = 64, cluster_sects = 1,
       reserved_sects = 1, fat_count = 2, root_max = 2, sectors = 16, fat_sects = 1,
       track_sects = 4, heads = 2, volume_id = 0, volume_label = [], root = 192,
       cluster2 = 256, cluster_limit = 14, fat = [] \<rparr>"
  have c0: "slice small_mismatch 64 128 = small_fat"
    unfolding small_mismatch_def by (rule small_image_fat1) (rule small_fat_len)
  have c1: "slice small_mismatch 128 192 = used_fat"
    unfolding small_mismatch_def by (rule small_image_fat2) (simp_all add: small_fat_len used_fat_len)
  have "small_fat ! 3 \<noteq> used_fat ! 3" by (simp add: small_fat_def used_fat_def)
  then have ne: "small_fat \<noteq> used_fat" by auto
  have "\<exists>i. 1 \<le> i \<and> i < fat_count ?s
        \<and> slice (data ?s) (reserved_sects ?s * sector_size ?s)
              (reserved_sects ?s * sector_size ?s + fat_sects ?s * sector_size ?s)
          \<noteq> slice (data ?s) (reserved_sects ?s * sector_size ?s + fat_sects ?s * sector_size ?s * i)
              (reserved_sects ?s * sector_size ?s + fat_sects ?s * sector_size ?s * i
                 + fat_sects ?s * sector_size ?s)"
    by (rule exI[of _ 1]) (simp add: c0 c1 ne)
  then have "floppy_init small_mismatch = Inl Error"
    using fat_open_mismatch_fatal[of ?s small_mismatch] small_mismatch_boot by blast
  moreover have "data (projr (floppy_init small_floppy)) = small_floppy"
    using fat_open_mismatch_fatal[of ?s small_floppy] small_init by simp
  ultimately show ?thesis by simp
qed


end
